theory Spec2Isabelle
  imports Complex_Main "HOL-Library.Word" "HOL-Library.Stream" "HOL-Library.Multiset"
begin

section \<open>Strings\<close>

text \<open>
  A JavaScript string is a sequence of UTF-16 code units. Literals of the source that are
  plain ASCII are written with \<open>lit\<close>.
\<close>

type_synonym code_unit = "16 word"
type_synonym jsstring = "code_unit list"

definition lit :: "string \<Rightarrow> jsstring" where
  "lit s = map (\<lambda>c. word_of_nat (of_char c)) s"

text \<open>
  \<^verbatim>\<open>String.prototype.trim\<close> removes the code units of WhiteSpace and LineTerminator
  from both ends; \<^verbatim>\<open>substring(0, n)\<close> keeps the first \<open>n\<close> code units.
\<close>

definition isWhiteSpace :: "code_unit \<Rightarrow> bool" where
  "isWhiteSpace c \<longleftrightarrow>
     c \<in> set [0x0009, 0x000A, 0x000B, 0x000C, 0x000D, 0x0020, 0x00A0, 0x1680,
              0x2028, 0x2029, 0x202F, 0x205F, 0x3000, 0xFEFF]
     \<or> (0x2000 \<le> c \<and> c \<le> 0x200A)"

definition trim :: "jsstring \<Rightarrow> jsstring" where
  "trim s = rev (dropWhile isWhiteSpace (rev (dropWhile isWhiteSpace s)))"

definition substring0 :: "nat \<Rightarrow> jsstring \<Rightarrow> jsstring" where
  "substring0 n s = take n s"

text \<open>
  \<^verbatim>\<open>String.prototype.toLowerCase\<close>, on the code units whose lower-case form holds an
  ASCII letter: \<open>A\<close> to \<open>Z\<close>, the Kelvin sign U+212A (to \<open>k\<close>) and U+0130 (to \<open>i\<close>
  followed by U+0307). Every other code unit is kept: its lower-case form has no ASCII
  code unit, and the patterns applied to the lowered text only tell ASCII code units apart.
\<close>

definition lowerUnit :: "code_unit \<Rightarrow> jsstring" where
  "lowerUnit c =
     (if 0x41 \<le> c \<and> c \<le> 0x5A then [c + 0x20]
      else if c = 0x212A then [0x6B]
      else if c = 0x0130 then [0x69, 0x0307]
      else [c])"

definition toLowerCase :: "jsstring \<Rightarrow> jsstring" where
  "toLowerCase s = concat (map lowerUnit s)"

section \<open>Regular expressions of \<^verbatim>\<open>lib/ai\<close>\<close>

text \<open>
  The source uses three shapes of pattern, none with the \<^verbatim>\<open>g\<close>, \<^verbatim>\<open>y\<close> or \<^verbatim>\<open>u\<close> flag:
  \<^item> \<^verbatim>\<open>/\b(w1|...|wn)\b/i\<close>: one of the words, between two word boundaries;
  \<^item> \<^verbatim>\<open>/[...]/\<close>: one code unit of a class;
  \<^item> \<^verbatim>\<open>/w1|...|wn/i\<close>: one of the words, anywhere.
  \<^verbatim>\<open>test\<close> succeeds when the pattern matches at some start position. Under \<^verbatim>\<open>i\<close> without
  \<^verbatim>\<open>u\<close> a code unit of the text matches an ASCII pattern character when both have the same
  upper-case form, and a code unit from 128 on never takes an ASCII form.
\<close>

datatype regex =
  WordAlt "jsstring list"
| CharClass "code_unit list"
| SubAlt "jsstring list"

definition isWordChar :: "code_unit \<Rightarrow> bool" where
  "isWordChar c \<longleftrightarrow>
     (0x61 \<le> c \<and> c \<le> 0x7A) \<or> (0x41 \<le> c \<and> c \<le> 0x5A) \<or> (0x30 \<le> c \<and> c \<le> 0x39) \<or> c = 0x5F"

definition canonicalize :: "code_unit \<Rightarrow> code_unit" where
  "canonicalize c = (if 0x61 \<le> c \<and> c \<le> 0x7A then c - 0x20 else c)"

fun matchLit :: "jsstring \<Rightarrow> jsstring \<Rightarrow> bool" where
  "matchLit [] cs = True"
| "matchLit (p # ps) [] = False"
| "matchLit (p # ps) (c # cs) = (canonicalize p = canonicalize c \<and> matchLit ps cs)"

definition isWordAt :: "jsstring \<Rightarrow> nat \<Rightarrow> bool" where
  "isWordAt s i \<longleftrightarrow> i < length s \<and> isWordChar (s ! i)"

definition wordBoundary :: "jsstring \<Rightarrow> nat \<Rightarrow> bool" where
  "wordBoundary s i \<longleftrightarrow> ((0 < i \<and> isWordAt s (i - 1)) \<noteq> isWordAt s i)"

definition starts :: "jsstring \<Rightarrow> nat list" where
  "starts s = [0..<Suc (length s)]"

fun test :: "regex \<Rightarrow> jsstring \<Rightarrow> bool" where
  "test (WordAlt ws) s =
     list_ex (\<lambda>i. wordBoundary s i \<and>
                list_ex (\<lambda>w. matchLit w (drop i s) \<and> wordBoundary s (i + length w)) ws)
       (starts s)"
| "test (CharClass cls) s = list_ex (\<lambda>c. c \<in> set cls) s"
| "test (SubAlt ws) s = list_ex (\<lambda>i. list_ex (\<lambda>w. matchLit w (drop i s)) ws) (starts s)"

section \<open>Emotion and toxicity classifiers\<close>

datatype emotion = Neutral | Happy | Sad | Angry | Stressed | Anxious

text \<open>
  \<open>emotionPatterns\<close> in the order of its keys, which is the order \<^verbatim>\<open>Object.entries\<close>
  yields. The classes are the code units written between the brackets in the source file.
\<close>

definition emotionPatterns :: "(emotion \<times> regex list) list" where
  "emotionPatterns =
    [(Happy,
       [WordAlt (map lit [''happy'', ''joy'', ''excited'', ''amazing'', ''wonderful'', ''great'',
                          ''awesome'', ''love'', ''fantastic'', ''brilliant'']),
        CharClass [0x011F, 0x0178, 0x02DC, 0x0160, 0x201E, 0x0192, 0x00A5, 0x00B0, 0x00E2,
                   0x00A4, 0x00EF, 0x00B8, 0x2019, 0x2022, 0x2030, 0x0153, 0x00A8]]),
     (Sad,
       [WordAlt (map lit [''sad'', ''depressed'', ''down'', ''lonely'', ''crying'', ''miss'',
                          ''hurt'', ''heartbroken'', ''disappointed'']),
        CharClass [0x011F, 0x0178, 0x02DC, 0x00A2, 0x00AD, 0x201D, 0x2019]]),
     (Angry,
       [WordAlt (map lit [''angry'', ''mad'', ''furious'', ''hate'', ''annoyed'', ''frustrated'',
                          ''pissed'', ''rage'']),
        CharClass [0x011F, 0x0178, 0x02DC, 0x00A0, 0x00A1, 0x00A4, 0x00AC]]),
     (Stressed,
       [WordAlt (map lit [''stressed'', ''overwhelmed'', ''exhausted'', ''tired'', ''burned out'',
                          ''can'' @ [CHR 0x27] @ ''t cope'', ''too much'']),
        CharClass [0x011F, 0x0178, 0x02DC, 0x00AB, 0x00A9, 0x00A4]]),
     (Anxious,
       [WordAlt (map lit [''anxious'', ''worried'', ''nervous'', ''scared'', ''afraid'', ''panic'',
                          ''anxiety'', ''fear'']),
        CharClass [0x011F, 0x0178, 0x02DC, 0x00B0, 0x00A8, 0x00B1]]),
     (Neutral, [])]"

definition toxicPatterns :: "regex list" where
  "toxicPatterns =
    [WordAlt (map lit [''kill'', ''die'', ''hate'', ''stupid'', ''idiot'', ''dumb'', ''loser'',
                       ''ugly'', ''fat'', ''retard'']),
     WordAlt (map lit [''fuck'', ''shit'', ''damn'', ''ass'', ''bitch'']),
     SubAlt (map lit [''threatening'', ''harass'', ''bully''])]"

text \<open>The inner loop of both classifiers: does one of the patterns match?\<close>

fun testPatterns :: "regex list \<Rightarrow> jsstring \<Rightarrow> bool" where
  "testPatterns [] s = False"
| "testPatterns (p # ps) s = (if test p s then True else testPatterns ps s)"

text \<open>The outer loop of \<open>analyzeEmotion\<close> over the entries, skipping \<open>neutral\<close>.\<close>

fun scanEmotions :: "(emotion \<times> regex list) list \<Rightarrow> jsstring \<Rightarrow> emotion" where
  "scanEmotions [] s = Neutral"
| "scanEmotions ((e, ps) # rest) s =
     (if e = Neutral then scanEmotions rest s
      else if testPatterns ps s then e
      else scanEmotions rest s)"

definition analyzeEmotion :: "jsstring \<Rightarrow> emotion" where
  "analyzeEmotion s = scanEmotions emotionPatterns s"

record toxicity =
  isToxic :: bool
  reason :: "jsstring option"

definition detectToxicity :: "jsstring \<Rightarrow> toxicity" where
  "detectToxicity s =
     (let lowerText = toLowerCase s in
      if testPatterns toxicPatterns lowerText
      then \<lparr>isToxic = True,
            reason = Some (lit ''Message contains potentially harmful language'')\<rparr>
      else \<lparr>isToxic = False, reason = None\<rparr>)"




section \<open>The realtime store\<close>

text \<open>
  The store is a tree of JSON values addressed by path; a path with no value reads as
  \<^verbatim>\<open>null\<close>, and writing below a missing node creates it. The records below are the nodes
  the hooks read and write, every field optional as in the stored JSON. Identifiers
  (chat, message and user ids) are single path segments. The fields \<open>text\<close> and \<open>isToxic\<close>
  of a message are \<open>text'\<close> and \<open>toxic\<close> here.
\<close>

type_synonym key = jsstring

record messageNode =
  senderId :: "key option"
  senderName :: "jsstring option"
  text' :: "jsstring option"
  timestamp :: "int option"
  emotion :: "emotion option"
  toxic :: "bool option"
  isDeleted :: "bool option"
  deletedAt :: "int option"

definition emptyMessage :: messageNode where
  "emptyMessage =
     \<lparr>senderId = None, senderName = None, text' = None, timestamp = None, emotion = None,
      toxic = None, isDeleted = None, deletedAt = None\<rparr>"

record chatNode =
  participants :: "key list option"
  participantNames :: "(key \<rightharpoonup> jsstring) option"
  lastMessage :: "jsstring option"
  lastMessageTime :: "int option"
  isGroup :: "bool option"
  groupName :: "jsstring option"
  createdAt :: "int option"
  messages :: "key \<rightharpoonup> messageNode"
  typing :: "key \<rightharpoonup> bool"

definition emptyChat :: chatNode where
  "emptyChat =
     \<lparr>participants = None, participantNames = None, lastMessage = None,
      lastMessageTime = None, isGroup = None, groupName = None, createdAt = None,
      messages = Map.empty, typing = Map.empty\<rparr>"

text \<open>The values a hook holds after the spread \<^verbatim>\<open>{ id, ...val }\<close>.\<close>

record message = messageNode +
  message_id :: key

record chat = chatNode +
  chat_id :: key

datatype dbref =
  MessageRef key key
| MessageDeletedRef key key
| MessageDeletedAtRef key key
| LastMessageRef key
| LastMessageTimeRef key
| TypingRef key key
| ChatRef key
| UserChatRef key key

text \<open>What a call does besides returning: classifier calls and store writes, in order.\<close>

datatype effect =
  ToxicityCall jsstring
| EmotionCall jsstring
| SetCall dbref

text \<open>
  The world a hook runs in: the store, the log of effects, and the two things the code
  takes from outside, the readings \<^verbatim>\<open>Date.now()\<close> will give and the keys \<^verbatim>\<open>push\<close> will
  generate, each as the stream of its future values.
\<close>

record world =
  chats :: "key \<rightharpoonup> chatNode"
  userChats :: "key \<Rightarrow> key \<rightharpoonup> bool"
  log :: "effect list"
  clock :: "int stream"
  pushKeys :: "key stream"

definition dateNow :: "world \<Rightarrow> int \<times> world" where
  "dateNow w = (shd (clock w), w\<lparr>clock := stl (clock w)\<rparr>)"

definition push :: "world \<Rightarrow> key \<times> world" where
  "push w = (shd (pushKeys w), w\<lparr>pushKeys := stl (pushKeys w)\<rparr>)"

definition logged :: "effect \<Rightarrow> world \<Rightarrow> world" where
  "logged e w = w\<lparr>log := log w @ [e]\<rparr>"

definition nodeOf :: "world \<Rightarrow> key \<Rightarrow> chatNode" where
  "nodeOf w c = (case chats w c of None \<Rightarrow> emptyChat | Some n \<Rightarrow> n)"

definition msgOf :: "chatNode \<Rightarrow> key \<Rightarrow> messageNode" where
  "msgOf n m = (case messages n m of None \<Rightarrow> emptyMessage | Some x \<Rightarrow> x)"

definition updChat :: "key \<Rightarrow> (chatNode \<Rightarrow> chatNode) \<Rightarrow> world \<Rightarrow> world" where
  "updChat c f w = w\<lparr>chats := (chats w)(c \<mapsto> f (nodeOf w c))\<rparr>"

definition updMsg :: "key \<Rightarrow> key \<Rightarrow> (messageNode \<Rightarrow> messageNode) \<Rightarrow> world \<Rightarrow> world" where
  "updMsg c m f w = updChat c (\<lambda>n. n\<lparr>messages := (messages n)(m \<mapsto> f (msgOf n m))\<rparr>) w"

text \<open>\<^verbatim>\<open>set(ref, value)\<close> at each of the paths the hooks write.\<close>

definition setMessage :: "key \<Rightarrow> key \<Rightarrow> messageNode \<Rightarrow> world \<Rightarrow> world" where
  "setMessage c m v w = logged (SetCall (MessageRef c m)) (updMsg c m (\<lambda>_. v) w)"

definition setMessageDeleted :: "key \<Rightarrow> key \<Rightarrow> bool \<Rightarrow> world \<Rightarrow> world" where
  "setMessageDeleted c m b w =
     logged (SetCall (MessageDeletedRef c m)) (updMsg c m (\<lambda>x. x\<lparr>isDeleted := Some b\<rparr>) w)"

definition setMessageDeletedAt :: "key \<Rightarrow> key \<Rightarrow> int \<Rightarrow> world \<Rightarrow> world" where
  "setMessageDeletedAt c m t w =
     logged (SetCall (MessageDeletedAtRef c m)) (updMsg c m (\<lambda>x. x\<lparr>deletedAt := Some t\<rparr>) w)"

definition setLastMessage :: "key \<Rightarrow> jsstring \<Rightarrow> world \<Rightarrow> world" where
  "setLastMessage c v w =
     logged (SetCall (LastMessageRef c)) (updChat c (\<lambda>n. n\<lparr>lastMessage := Some v\<rparr>) w)"

definition setLastMessageTime :: "key \<Rightarrow> int \<Rightarrow> world \<Rightarrow> world" where
  "setLastMessageTime c t w =
     logged (SetCall (LastMessageTimeRef c)) (updChat c (\<lambda>n. n\<lparr>lastMessageTime := Some t\<rparr>) w)"

definition setTyping :: "key \<Rightarrow> key \<Rightarrow> bool \<Rightarrow> world \<Rightarrow> world" where
  "setTyping c u b w =
     logged (SetCall (TypingRef c u)) (updChat c (\<lambda>n. n\<lparr>typing := (typing n)(u \<mapsto> b)\<rparr>) w)"

definition setChat :: "key \<Rightarrow> chatNode \<Rightarrow> world \<Rightarrow> world" where
  "setChat c v w = logged (SetCall (ChatRef c)) (w\<lparr>chats := (chats w)(c \<mapsto> v)\<rparr>)"

definition setUserChat :: "key \<Rightarrow> key \<Rightarrow> bool \<Rightarrow> world \<Rightarrow> world" where
  "setUserChat u c b w =
     logged (SetCall (UserChatRef u c)) (w\<lparr>userChats := (userChats w)(u := (userChats w u)(c \<mapsto> b))\<rparr>)"

definition isSetCall :: "effect \<Rightarrow> bool" where
  "isSetCall e = (case e of SetCall r \<Rightarrow> True | _ \<Rightarrow> False)"

definition writes :: "world \<Rightarrow> effect list" where
  "writes w = filter isSetCall (log w)"

definition classifierCalls :: "world \<Rightarrow> effect list" where
  "classifierCalls w = filter (\<lambda>e. \<not> isSetCall e) (log w)"

section \<open>The hook \<open>useChat\<close>\<close>

record user =
  uid :: key
  displayName :: "jsstring option"

record userProfile =
  profileDisplayName :: "jsstring option"
  dailyUsageLimit :: "int option"
  profileTodayUsage :: "int option"

datatype error = Error jsstring | TypeError

datatype 'a outcome = Returned 'a | Thrown error

text \<open>\<^verbatim>\<open>!chatId\<close> holds for \<^verbatim>\<open>null\<close> and for the empty string.\<close>

definition noString :: "jsstring option \<Rightarrow> bool" where
  "noString s \<longleftrightarrow> (case s of None \<Rightarrow> True | Some v \<Rightarrow> v = [])"

definition orElse :: "jsstring option \<Rightarrow> jsstring \<Rightarrow> jsstring" where
  "orElse s d = (if noString s then d else the s)"

definition setTypingStatus :: "key option \<Rightarrow> user option \<Rightarrow> bool \<Rightarrow> world \<Rightarrow> world" where
  "setTypingStatus chatId usr b w =
     (case usr of
        None \<Rightarrow> w
      | Some u \<Rightarrow> if noString chatId then w else setTyping (the chatId) (uid u) b w)"

definition toxicMessage :: jsstring where
  "toxicMessage = lit ''This message contains harmful content. Please rephrase it kindly.''"

definition sendMessage ::
  "key option \<Rightarrow> user option \<Rightarrow> userProfile option \<Rightarrow> jsstring \<Rightarrow> world
     \<Rightarrow> emotion option outcome \<times> world" where
  "sendMessage chatId usr profile txt w =
     (case (usr, profile) of
        (Some u, Some p) \<Rightarrow>
          if noString chatId \<or> trim txt = [] then (Returned None, w)
          else
            let c = the chatId;
                w1 = logged (ToxicityCall txt) w;
                toxicityResult = detectToxicity txt
            in if isToxic toxicityResult then (Thrown (Error toxicMessage), w1)
               else
                 let w2 = logged (EmotionCall txt) w1;
                     em = analyzeEmotion txt;
                     (newKey, w3) = push w2;
                     (now, w4) = dateNow w3;
                     msg = \<lparr>senderId = Some (uid u),
                            senderName = Some (orElse (profileDisplayName p) (lit ''User'')),
                            text' = Some (trim txt),
                            timestamp = Some now,
                            emotion = Some em,
                            toxic = Some False,
                            isDeleted = None,
                            deletedAt = None\<rparr>;
                     w5 = setMessage c newKey msg w4;
                     w6 = setLastMessage c (substring0 50 (trim txt)) w5;
                     (now', w7) = dateNow w6;
                     w8 = setLastMessageTime c now' w7;
                     w9 = setTypingStatus chatId usr False w8
                 in (Returned (Some em), w9)
      | _ \<Rightarrow> (Returned None, w))"

definition deleteMessage ::
  "key option \<Rightarrow> user option \<Rightarrow> key \<Rightarrow> world \<Rightarrow> unit outcome \<times> world" where
  "deleteMessage chatId usr messageId w =
     (if noString chatId \<or> usr = None then (Returned (), w)
      else
        let c = the chatId;
            w1 = setMessageDeleted c messageId True w;
            (now, w2) = dateNow w1;
            w3 = setMessageDeletedAt c messageId now w2
        in (Returned (), w3))"

text \<open>
  The listener on the messages of a chat: \<open>data\<close> is the value of the snapshot, \<^verbatim>\<open>null\<close>
  or the entries of an object; what it passes to \<open>setMessages\<close> is the published list.
\<close>

definition softDeleted :: "message \<Rightarrow> bool" where
  "softDeleted m \<longleftrightarrow> isDeleted m = Some True"

definition onMessages :: "(key \<times> messageNode) list option \<Rightarrow> message list" where
  "onMessages data =
     (case data of
        Some entries \<Rightarrow>
          filter (\<lambda>m. \<not> softDeleted m)
            (map (\<lambda>(k, msg). messageNode.extend msg (message.fields k)) entries)
      | None \<Rightarrow> [])"

text \<open>A snapshot of the messages of chat \<open>c\<close> holds records as the store has them.\<close>

definition snapshotOf :: "world \<Rightarrow> key \<Rightarrow> (key \<times> messageNode) list \<Rightarrow> bool" where
  "snapshotOf w c entries \<longleftrightarrow>
     list_all (\<lambda>(k, msg). messages (nodeOf w c) k = Some msg) entries"

section \<open>The hook \<open>useChats\<close>\<close>

text \<open>\<^verbatim>\<open>t || 0\<close> on an optional time.\<close>

definition orZero :: "int option \<Rightarrow> int" where
  "orZero t = (case t of None \<Rightarrow> 0 | Some v \<Rightarrow> v)"

definition compareChats :: "chat \<Rightarrow> chat \<Rightarrow> int" where
  "compareChats a b = orZero (lastMessageTime b) - orZero (lastMessageTime a)"

text \<open>
  \<^verbatim>\<open>Array.prototype.sort\<close> with a comparator is a stable sort; here by insertion, an
  element going before the first one it does not compare greater than.
\<close>

fun insertBy :: "('a \<Rightarrow> 'a \<Rightarrow> int) \<Rightarrow> 'a \<Rightarrow> 'a list \<Rightarrow> 'a list" where
  "insertBy cmp x [] = [x]"
| "insertBy cmp x (y # ys) = (if cmp x y \<le> 0 then x # y # ys else y # insertBy cmp x ys)"

definition sortBy :: "('a \<Rightarrow> 'a \<Rightarrow> int) \<Rightarrow> 'a list \<Rightarrow> 'a list" where
  "sortBy cmp xs = foldr (insertBy cmp) xs []"

text \<open>The one-shot read of a chat record: \<^verbatim>\<open>null\<close> when the snapshot does not exist.\<close>

definition resolveChat :: "world \<Rightarrow> key \<Rightarrow> chat option" where
  "resolveChat w c =
     (case chats w c of
        Some n \<Rightarrow> Some (chatNode.extend n (chat.fields c))
      | None \<Rightarrow> None)"

text \<open>
  The listener on the chat ids of the user: \<open>data\<close> is \<^verbatim>\<open>null\<close> or the keys of the index;
  the result is the list passed to \<open>setChats\<close>.
\<close>

definition onUserChats :: "world \<Rightarrow> key list option \<Rightarrow> chat list" where
  "onUserChats w data =
     (case data of
        Some chatIds \<Rightarrow> sortBy compareChats (List.map_filter (resolveChat w) chatIds)
      | None \<Rightarrow> [])"

text \<open>
  The predicate of \<^verbatim>\<open>chats.find\<close> in \<open>createChat\<close>. Reading \<^verbatim>\<open>includes\<close> from a chat with
  no \<open>participants\<close> raises a \<^verbatim>\<open>TypeError\<close>.
\<close>

definition isExistingChat :: "key \<Rightarrow> key \<Rightarrow> chat \<Rightarrow> bool outcome" where
  "isExistingChat participantId me c =
     (if isGroup c = Some True then Returned False
      else case participants c of
             None \<Rightarrow> Thrown TypeError
           | Some ps \<Rightarrow> Returned (participantId \<in> set ps \<and> me \<in> set ps))"

fun findChat :: "(chat \<Rightarrow> bool outcome) \<Rightarrow> chat list \<Rightarrow> chat option outcome" where
  "findChat f [] = Returned None"
| "findChat f (c # cs) =
     (case f c of
        Thrown e \<Rightarrow> Thrown e
      | Returned True \<Rightarrow> Returned (Some c)
      | Returned False \<Rightarrow> findChat f cs)"

definition newDirectChat :: "user \<Rightarrow> key \<Rightarrow> jsstring \<Rightarrow> int \<Rightarrow> chatNode" where
  "newDirectChat u participantId participantName now =
     \<lparr>participants = Some [uid u, participantId],
      participantNames =
        Some [uid u \<mapsto> orElse (displayName u) (lit ''User''), participantId \<mapsto> participantName],
      lastMessage = None,
      lastMessageTime = None,
      isGroup = Some False,
      groupName = None,
      createdAt = Some now,
      messages = Map.empty,
      typing = Map.empty\<rparr>"

definition createChat ::
  "user option \<Rightarrow> chat list \<Rightarrow> key \<Rightarrow> jsstring \<Rightarrow> world \<Rightarrow> key option outcome \<times> world" where
  "createChat usr cached participantId participantName w =
     (case usr of
        None \<Rightarrow> (Returned None, w)
      | Some u \<Rightarrow>
          (case findChat (isExistingChat participantId (uid u)) cached of
             Thrown e \<Rightarrow> (Thrown e, w)
           | Returned (Some existingChat) \<Rightarrow> (Returned (Some (chat_id existingChat)), w)
           | Returned None \<Rightarrow>
               let (chatId, w1) = push w;
                   (now, w2) = dateNow w1;
                   w3 = setChat chatId (newDirectChat u participantId participantName now) w2;
                   w4 = setUserChat (uid u) chatId True w3;
                   w5 = setUserChat participantId chatId True w4
               in (Returned (Some chatId), w5)))"

text \<open>
  A cached chat that is a direct chat between the two users, as the specification words
  it, and a cached chat that has its \<open>participants\<close>, as the type \<open>Chat\<close> declares.
\<close>

definition directBetween :: "key \<Rightarrow> key \<Rightarrow> chat \<Rightarrow> bool" where
  "directBetween participantId me c \<longleftrightarrow>
     isGroup c \<noteq> Some True \<and>
     (case participants c of
        None \<Rightarrow> False
      | Some ps \<Rightarrow> participantId \<in> set ps \<and> me \<in> set ps)"

definition hasParticipants :: "chat \<Rightarrow> bool" where
  "hasParticipants c \<longleftrightarrow> participants c \<noteq> None"

section \<open>The wellbeing provider\<close>

text \<open>
  The state of \<open>WellbeingProvider\<close>, with the dependency array the daily-limit effect ran
  with last (\<open>None\<close> before the first render). An effect runs after the first render and
  after every render whose dependency array differs from the last one.
\<close>

datatype toast = BreakToast | LimitToast

record wellbeing =
  sessionStartTime :: "int option"
  todayUsage :: int
  dailyLimit :: int
  showBreakReminder :: bool
  lastBreakReminder :: int
  limitDeps :: "(bool \<times> bool \<times> nat) option"

definition initialWellbeing :: wellbeing where
  "initialWellbeing =
     \<lparr>sessionStartTime = None, todayUsage = 0, dailyLimit = 120, showBreakReminder = False,
      lastBreakReminder = 0, limitDeps = None\<rparr>"

text \<open>
  A render followed by the daily-limit effect. \<open>isConfigured\<close> comes from \<open>useAuth\<close> and
  \<open>toastFn\<close> stands for the identity of the function \<open>useToast\<close> returns.
\<close>

definition isLimitReached :: "wellbeing \<Rightarrow> bool" where
  "isLimitReached s \<longleftrightarrow> dailyLimit s \<le> todayUsage s"

definition limitEffect :: "bool \<Rightarrow> nat \<Rightarrow> wellbeing \<Rightarrow> toast list \<times> wellbeing" where
  "limitEffect isConfigured toastFn s =
     (let deps = (isLimitReached s, isConfigured, toastFn) in
      if limitDeps s = Some deps then ([], s)
      else (if isLimitReached s \<and> isConfigured then [LimitToast] else [],
            s\<lparr>limitDeps := Some deps\<rparr>))"

text \<open>
  What changes \<open>todayUsage\<close> and \<open>dailyLimit\<close>: the one-minute usage timer and
  \<open>resetDailyUsage\<close>, both of a signed-in user on a configured client, and the effect that
  loads the preferences of a profile. Each is followed by a render.
\<close>

datatype event = Tick | Reset | Profile userProfile

definition orDefault :: "int option \<Rightarrow> int \<Rightarrow> int" where
  "orDefault v d = (case v of None \<Rightarrow> d | Some x \<Rightarrow> if x = 0 then d else x)"

fun applyEvent :: "event \<Rightarrow> wellbeing \<Rightarrow> wellbeing" where
  "applyEvent Tick s = s\<lparr>todayUsage := todayUsage s + 1\<rparr>"
| "applyEvent Reset s = s\<lparr>todayUsage := 0\<rparr>"
| "applyEvent (Profile p) s =
     s\<lparr>todayUsage := orDefault (profileTodayUsage p) 0,
       dailyLimit := orDefault (dailyUsageLimit p) 120\<rparr>"

definition step :: "bool \<Rightarrow> nat \<Rightarrow> event \<Rightarrow> wellbeing \<Rightarrow> toast list \<times> wellbeing" where
  "step isConfigured toastFn ev s = limitEffect isConfigured toastFn (applyEvent ev s)"

fun run :: "bool \<Rightarrow> nat \<Rightarrow> event list \<Rightarrow> wellbeing \<Rightarrow> toast list \<times> wellbeing" where
  "run isConfigured toastFn [] s = ([], s)"
| "run isConfigured toastFn (ev # evs) s =
     (let (ts, s1) = step isConfigured toastFn ev s;
          (ts', s2) = run isConfigured toastFn evs s1
      in (ts @ ts', s2))"

text \<open>
  The callback of the one-minute break timer. The timer exists only while
  \<open>sessionStartTime\<close> is truthy and \<open>isConfigured\<close> holds. \<open>clk\<close> is the stream of the
  readings of \<^verbatim>\<open>Date.now()\<close>; the quotients by 60000 are taken exactly.
\<close>

definition breakCheck :: "bool \<Rightarrow> int stream \<Rightarrow> wellbeing \<Rightarrow> toast list \<times> wellbeing" where
  "breakCheck isConfigured clk s =
     (case sessionStartTime s of
        None \<Rightarrow> ([], s)
      | Some start \<Rightarrow>
          if start = 0 \<or> \<not> isConfigured then ([], s)
          else
            let sessionDuration = real_of_int (shd clk - start) / 60000;
                timeSinceLastReminder = real_of_int (shd (stl clk) - lastBreakReminder s) / 60000
            in if 30 \<le> sessionDuration \<and> 30 \<le> timeSinceLastReminder
               then ([BreakToast],
                     s\<lparr>showBreakReminder := True, lastBreakReminder := shd (stl (stl clk))\<rparr>)
               else ([], s))"

definition minutes :: "int \<Rightarrow> int" where
  "minutes n = n * 60000"

text \<open>
  The break timer left to itself: its callback runs at each of the given times, every
  reading of the clock during one run being that time. \<open>everyMinute t0 n\<close> are the times
  of the first \<open>n\<close> runs of a timer of period one minute started at \<open>t0\<close>; surfacing a
  reminder restarts the timer at once, which keeps its runs on the minute.
\<close>

fun checksAt :: "bool \<Rightarrow> int list \<Rightarrow> wellbeing \<Rightarrow> toast list list \<times> wellbeing" where
  "checksAt isConfigured [] s = ([], s)"
| "checksAt isConfigured (t # ts) s =
     (let (r, s1) = breakCheck isConfigured (sconst t) s;
          (rs, s2) = checksAt isConfigured ts s1
      in (r # rs, s2))"

definition minutesFrom :: "int \<Rightarrow> nat \<Rightarrow> nat \<Rightarrow> int list" where
  "minutesFrom t0 a b = map (\<lambda>k. t0 + minutes (int k)) [a..<b]"

definition everyMinute :: "int \<Rightarrow> nat \<Rightarrow> int list" where
  "everyMinute t0 n = minutesFrom t0 1 (Suc n)"

section \<open>Example values\<close>

definition alice :: user where
  "alice = \<lparr>uid = lit ''A'', displayName = Some (lit ''Alice'')\<rparr>"

definition aliceProfile :: userProfile where
  "aliceProfile =
     \<lparr>profileDisplayName = Some (lit ''Alice''), dailyUsageLimit = Some 120,
      profileTodayUsage = Some 119\<rparr>"

definition world0 :: world where
  "world0 =
     \<lparr>chats = Map.empty, userChats = (\<lambda>u. Map.empty), log = [],
      clock = siterate (\<lambda>t. t + 1) 1000,
      pushKeys = lit ''k1'' ## lit ''k2'' ## sconst (lit ''k3'')\<rparr>"

text \<open>A store with one message, tagged happy and not toxic, in chat \<open>c1\<close>.\<close>

definition happyMessage :: messageNode where
  "happyMessage =
     \<lparr>senderId = Some (lit ''A''), senderName = Some (lit ''Alice''),
      text' = Some (lit ''I am happy''), timestamp = Some 900, emotion = Some Happy,
      toxic = Some False, isDeleted = None, deletedAt = None\<rparr>"

definition worldH :: world where
  "worldH =
     world0\<lparr>chats := [lit ''c1'' \<mapsto> emptyChat\<lparr>messages := [lit ''k0'' \<mapsto> happyMessage]\<rparr>]\<rparr>"

text \<open>Three chats of Alice and Bob: \<open>c1\<close> last active at 5, \<open>c2\<close> never, \<open>c3\<close> at 9.\<close>

definition chatAt :: "int option \<Rightarrow> chatNode" where
  "chatAt t =
     emptyChat\<lparr>participants := Some [lit ''A'', lit ''B''], isGroup := Some False,
               lastMessageTime := t\<rparr>"

definition worldC :: world where
  "worldC =
     world0\<lparr>chats := [lit ''c1'' \<mapsto> chatAt (Some 5), lit ''c2'' \<mapsto> chatAt None,
                      lit ''c3'' \<mapsto> chatAt (Some 9)]\<rparr>"

definition cachedC :: "chat list" where
  "cachedC = onUserChats worldC (Some [lit ''c1'', lit ''c2'', lit ''c3''])"

text \<open>
  The provider after its first render, and after the profile of Alice (119 of 120 minutes
  used) has been loaded.
\<close>

definition mounted :: wellbeing where
  "mounted = snd (limitEffect True 0 initialWellbeing)"

definition loaded :: wellbeing where
  "loaded = snd (step True 0 (Profile aliceProfile) mounted)"

text \<open>A session started at time 1000 with no reminder so far.\<close>

definition session1000 :: wellbeing where
  "session1000 = initialWellbeing\<lparr>sessionStartTime := Some 1000\<rparr>"

text \<open>The order of the published chat list.\<close>

definition newerFirst :: "chat \<Rightarrow> chat \<Rightarrow> bool" where
  "newerFirst a b \<longleftrightarrow> orZero (lastMessageTime b) \<le> orZero (lastMessageTime a)"

text \<open>Words that begin with a lower-case ASCII letter, as every word of the patterns does.\<close>

definition lowerInitial :: "jsstring \<Rightarrow> bool" where
  "lowerInitial w \<longleftrightarrow> (case w of [] \<Rightarrow> False | p # ps \<Rightarrow> 0x61 \<le> p \<and> p \<le> 0x7A)"

text \<open>The world after Alice has sent \<open>hello\<close> to chat \<open>c1\<close>.\<close>

definition world1 :: world where
  "world1 = snd (sendMessage (Some (lit ''c1'')) (Some alice) (Some aliceProfile) (lit ''hello'') world0)"

section \<open>Properties of the classifiers\<close>




section \<open>Properties of \<open>sendMessage\<close>\<close>

lemmas store_defs = setMessage_def setMessageDeleted_def setMessageDeletedAt_def
  setLastMessage_def setLastMessageTime_def setTyping_def setChat_def setUserChat_def
  logged_def updMsg_def updChat_def dateNow_def push_def

lemma trim_empty_iff: "trim s = [] \<longleftrightarrow> list_all isWhiteSpace s"
proof
  assume "trim s = []"
  then have "dropWhile isWhiteSpace (rev (dropWhile isWhiteSpace s)) = []"
    by (simp add: trim_def)
  then have rest: "\<forall>x\<in>set (dropWhile isWhiteSpace s). isWhiteSpace x"
    by simp
  have "dropWhile isWhiteSpace s = []"
  proof (rule ccontr)
    assume ne: "dropWhile isWhiteSpace s \<noteq> []"
    then have "\<not> isWhiteSpace (hd (dropWhile isWhiteSpace s))"
      by (rule hd_dropWhile)
    moreover have "hd (dropWhile isWhiteSpace s) \<in> set (dropWhile isWhiteSpace s)"
      using ne by simp
    ultimately show False using rest by blast
  qed
  then show "list_all isWhiteSpace s"
    by (simp add: list_all_iff)
next
  assume "list_all isWhiteSpace s"
  then have d: "dropWhile isWhiteSpace s = []"
    by (simp add: list_all_iff)
  show "trim s = []" unfolding trim_def d by simp
qed

lemma white_not_letter:
  "isWhiteSpace c \<Longrightarrow>
     \<not> (0x41 \<le> c \<and> c \<le> 0x5A) \<and> \<not> (0x61 \<le> c \<and> c \<le> 0x7A) \<and> c \<noteq> 0x212A \<and> c \<noteq> 0x0130"
  unfolding isWhiteSpace_def by (auto simp: word_le_nat_alt)

lemma toLowerCase_white: "list_all isWhiteSpace s \<Longrightarrow> toLowerCase s = s"
  by (induction s) (auto simp: toLowerCase_def lowerUnit_def dest: white_not_letter)

lemma upper_of_lower:
  "0x61 \<le> p \<Longrightarrow> p \<le> (0x7A::16 word) \<Longrightarrow> 0x41 \<le> p - 0x20 \<and> p - 0x20 \<le> 0x5A"
  by unat_arith

lemma matchLit_white:
  assumes "lowerInitial w" and "list_all isWhiteSpace s"
  shows "\<not> matchLit w s"
proof (cases w)
  case Nil
  then show ?thesis using assms by (simp add: lowerInitial_def)
next
  case wcons: (Cons p ps)
  then have p: "0x61 \<le> p" "p \<le> 0x7A"
    using assms by (simp_all add: lowerInitial_def)
  show ?thesis
  proof (cases s)
    case Nil
    then show ?thesis using wcons by simp
  next
    case (Cons c cs)
    then have "isWhiteSpace c" using assms by simp
    then have c: "\<not> (0x41 \<le> c \<and> c \<le> 0x5A)" "\<not> (0x61 \<le> c \<and> c \<le> 0x7A)"
      using white_not_letter by blast+
    have "canonicalize p \<noteq> canonicalize c"
      using p c upper_of_lower [OF p] by (auto simp: canonicalize_def)
    then show ?thesis using Cons wcons by simp
  qed
qed

lemma test_white:
  assumes "\<forall>w\<in>set ws. lowerInitial w" and "list_all isWhiteSpace s"
  shows "\<not> test (WordAlt ws) s" and "\<not> test (SubAlt ws) s"
proof -
  have "\<not> matchLit w (drop i s)" if "w \<in> set ws" for i w
  proof -
    have "list_all isWhiteSpace (drop i s)"
      using assms(2) by (auto simp: list_all_iff dest: in_set_dropD)
    then show ?thesis using assms(1) that matchLit_white by blast
  qed
  then show "\<not> test (WordAlt ws) s" and "\<not> test (SubAlt ws) s"
    by (auto simp: list_ex_iff)
qed

lemma toxic_not_blank:
  assumes "isToxic (detectToxicity txt)"
  shows "trim txt \<noteq> []"
proof
  assume "trim txt = []"
  then have w: "list_all isWhiteSpace txt" by (simp add: trim_empty_iff)
  then have low: "toLowerCase txt = txt" by (rule toLowerCase_white)
  have "\<not> testPatterns toxicPatterns txt"
    using test_white [OF _ w]
    by (simp add: toxicPatterns_def lit_def lowerInitial_def del: test.simps)
  then show False using assms low by (simp add: detectToxicity_def)
qed

lemma hello_clean: "\<not> isToxic (detectToxicity (lit ''hello''))"
  by code_simp

lemma hello_trim: "trim (lit ''hello'') = lit ''hello''"
  by code_simp

lemma hello_neutral: "analyzeEmotion (lit ''hello'') = Neutral"
  by code_simp

lemma idiot_toxic: "isToxic (detectToxicity (lit ''you are an idiot''))"
  by code_simp

lemma sendMessage_accepted:
  assumes "chatId = Some c" "c \<noteq> []" "usr = Some u" "profile = Some p" "trim txt \<noteq> []"
    "\<not> isToxic (detectToxicity txt)"
  shows "fst (sendMessage chatId usr profile txt w) = Returned (Some (analyzeEmotion txt))"
    and "messages (nodeOf (snd (sendMessage chatId usr profile txt w)) c) =
           (messages (nodeOf w c))(shd (pushKeys w) \<mapsto>
              \<lparr>senderId = Some (uid u),
               senderName = Some (orElse (profileDisplayName p) (lit ''User'')),
               text' = Some (trim txt),
               timestamp = Some (shd (clock w)),
               emotion = Some (analyzeEmotion txt),
               toxic = Some False,
               isDeleted = None,
               deletedAt = None\<rparr>)"
    and "lastMessage (nodeOf (snd (sendMessage chatId usr profile txt w)) c)
           = Some (take 50 (trim txt))"
    and "lastMessageTime (nodeOf (snd (sendMessage chatId usr profile txt w)) c)
           = Some (shd (stl (clock w)))"
    and "\<forall>c'. c' \<noteq> c \<longrightarrow> chats (snd (sendMessage chatId usr profile txt w)) c' = chats w c'"
  using assms
  by (auto simp: sendMessage_def store_defs noString_def Let_def setTypingStatus_def nodeOf_def
      substring0_def split: option.splits)

text \<open>
  C10. When no chat is selected, no user is signed in, no profile is loaded or the text is
  empty or all white space, \<open>sendMessage\<close> returns \<^verbatim>\<open>undefined\<close> (no emotion tag, nothing
  thrown) and leaves the world as it was: no classifier call and no write is logged.
\<close>

theorem sendMessage_guard:
  assumes "noString chatId \<or> usr = None \<or> profile = None \<or> list_all isWhiteSpace txt"
  shows "sendMessage chatId usr profile txt w = (Returned None, w)
         \<and> classifierCalls (snd (sendMessage chatId usr profile txt w)) = classifierCalls w
         \<and> writes (snd (sendMessage chatId usr profile txt w)) = writes w"
proof -
  have "noString chatId \<or> usr = None \<or> profile = None \<or> trim txt = []"
    using assms by (simp add: trim_empty_iff)
  then have "sendMessage chatId usr profile txt w = (Returned None, w)"
    by (auto simp: sendMessage_def split: option.splits)
  then show ?thesis by simp
qed

theorem sendMessage_guard_witness:
  "list_all isWhiteSpace (lit ''   '')
   \<and> sendMessage (Some (lit ''c1'')) (Some alice) (Some aliceProfile) (lit ''   '') world0
       = (Returned None, world0)
   \<and> noString None
   \<and> sendMessage None (Some alice) (Some aliceProfile) (lit ''hello'') world0
       = (Returned None, world0)"
proof -
  have blank: "list_all isWhiteSpace (lit ''   '')"
    by (simp add: lit_def isWhiteSpace_def)
  have none: "noString None"
    by (simp add: noString_def)
  show ?thesis
    using blank none
      sendMessage_guard [of "Some (lit ''c1'')" "Some alice" "Some aliceProfile" "lit ''   ''" world0]
      sendMessage_guard [of None "Some alice" "Some aliceProfile" "lit ''hello''" world0]
    by simp
qed

text \<open>
  C2. A text the toxicity classifier flags is never written: the chats, the chat index and
  the logged writes are as before the call. Called with a chat, a user and a profile,
  \<open>sendMessage\<close> throws the content error.
\<close>

theorem sendMessage_toxic:
  assumes "isToxic (detectToxicity txt)"
  shows "(\<not> noString chatId \<and> usr \<noteq> None \<and> profile \<noteq> None
            \<longrightarrow> fst (sendMessage chatId usr profile txt w) = Thrown (Error toxicMessage))
         \<and> chats (snd (sendMessage chatId usr profile txt w)) = chats w
         \<and> userChats (snd (sendMessage chatId usr profile txt w)) = userChats w
         \<and> writes (snd (sendMessage chatId usr profile txt w)) = writes w"
  using assms toxic_not_blank [OF assms]
  by (auto simp: sendMessage_def logged_def writes_def isSetCall_def Let_def
      split: option.splits)

theorem sendMessage_toxic_witness:
  "isToxic (detectToxicity (lit ''you are an idiot''))
   \<and> fst (sendMessage (Some (lit ''c1'')) (Some alice) (Some aliceProfile)
            (lit ''you are an idiot'') world1) = Thrown (Error toxicMessage)
   \<and> chats (snd (sendMessage (Some (lit ''c1'')) (Some alice) (Some aliceProfile)
            (lit ''you are an idiot'') world1)) = chats world1
   \<and> writes (snd (sendMessage (Some (lit ''c1'')) (Some alice) (Some aliceProfile)
            (lit ''you are an idiot'') world1)) = writes world1"
proof -
  have c: "\<not> noString (Some (lit ''c1''))"
    by (simp add: noString_def lit_def)
  show ?thesis
    using idiot_toxic c
      sendMessage_toxic [OF idiot_toxic, of "Some (lit ''c1'')" "Some alice" "Some aliceProfile" world1]
    by simp
qed

text \<open>
  C1, amended. A send of a non-blank text that is not flagged, with a chat, a user and a
  profile, and a pushed key not yet among the messages of the chat, adds exactly one
  message record under that key and changes the messages of no other chat; the chat's
  \<open>lastMessage\<close> is the first 50 code units of the trimmed text; its \<open>lastMessageTime\<close>
  is the second reading of the clock, taken after the reading stored as the message's
  \<open>timestamp\<close>, and the two are equal exactly when the two readings are.
\<close>

theorem sendMessage_creates_message:
  assumes "chatId = Some c" and "c \<noteq> []" and "usr = Some u" and "profile = Some p"
    and "\<not> list_all isWhiteSpace txt"
    and "\<not> isToxic (detectToxicity txt)"
    and "shd (pushKeys w) \<notin> dom (messages (nodeOf w c))"
    and "w' = snd (sendMessage chatId usr profile txt w)"
  shows "dom (messages (nodeOf w' c)) = insert (shd (pushKeys w)) (dom (messages (nodeOf w c)))
         \<and> (\<forall>k. k \<noteq> shd (pushKeys w) \<longrightarrow> messages (nodeOf w' c) k = messages (nodeOf w c) k)
         \<and> (\<forall>c'. c' \<noteq> c \<longrightarrow> chats w' c' = chats w c')
         \<and> text' (msgOf (nodeOf w' c) (shd (pushKeys w))) = Some (trim txt)
         \<and> timestamp (msgOf (nodeOf w' c) (shd (pushKeys w))) = Some (shd (clock w))
         \<and> lastMessage (nodeOf w' c) = Some (take 50 (trim txt))
         \<and> lastMessageTime (nodeOf w' c) = Some (shd (stl (clock w)))
         \<and> (lastMessageTime (nodeOf w' c) = timestamp (msgOf (nodeOf w' c) (shd (pushKeys w)))
              \<longleftrightarrow> shd (stl (clock w)) = shd (clock w))"
proof -
  have t: "trim txt \<noteq> []"
    using assms(5) by (simp add: trim_empty_iff)
  note f = sendMessage_accepted [OF assms(1) assms(2) assms(3) assms(4) t assms(6), of w]
  show ?thesis
    using f(2,3,4,5) assms(7) by (simp add: assms(8) msgOf_def)
qed

lemma world0_facts:
  "shd (pushKeys world0) = lit ''k1''" "shd (clock world0) = 1000"
  "shd (stl (clock world0)) = 1001" "messages (nodeOf world0 c) = Map.empty"
  by (simp_all add: world0_def nodeOf_def emptyChat_def)

lemma hello_not_blank: "\<not> list_all isWhiteSpace (lit ''hello'')"
  using hello_trim trim_empty_iff [of "lit ''hello''"] by (simp add: lit_def)

theorem sendMessage_creates_message_witness:
  "lit ''c1'' \<noteq> [] \<and> \<not> list_all isWhiteSpace (lit ''hello'')
   \<and> \<not> isToxic (detectToxicity (lit ''hello''))
   \<and> shd (pushKeys world0) \<notin> dom (messages (nodeOf world0 (lit ''c1'')))
   \<and> dom (messages (nodeOf world1 (lit ''c1''))) = {lit ''k1''}
   \<and> text' (msgOf (nodeOf world1 (lit ''c1'')) (lit ''k1'')) = Some (lit ''hello'')
   \<and> lastMessage (nodeOf world1 (lit ''c1'')) = Some (lit ''hello'')
   \<and> lastMessageTime (nodeOf world1 (lit ''c1'')) = Some 1001"
proof -
  have c: "lit ''c1'' \<noteq> []" by (simp add: lit_def)
  have fresh: "shd (pushKeys world0) \<notin> dom (messages (nodeOf world0 (lit ''c1'')))"
    by (simp add: world0_facts)
  have len: "take 50 (lit ''hello'') = lit ''hello''" by (simp add: lit_def)
  note f = sendMessage_creates_message [OF refl c refl refl hello_not_blank hello_clean fresh world1_def]
  show ?thesis
    using c hello_not_blank hello_clean fresh f
    by (simp add: world0_facts hello_trim len)
qed

theorem sendMessage_time_counterexample:
  "fst (sendMessage (Some (lit ''c1'')) (Some alice) (Some aliceProfile) (lit ''hello'') world0)
     = Returned (Some Neutral)
   \<and> \<not> isToxic (detectToxicity (lit ''hello''))
   \<and> timestamp (msgOf (nodeOf world1 (lit ''c1'')) (lit ''k1'')) = Some 1000
   \<and> lastMessageTime (nodeOf world1 (lit ''c1'')) = Some 1001
   \<and> lastMessageTime (nodeOf world1 (lit ''c1''))
       \<noteq> timestamp (msgOf (nodeOf world1 (lit ''c1'')) (lit ''k1''))"
proof -
  have c: "lit ''c1'' \<noteq> []" by (simp add: lit_def)
  have t: "trim (lit ''hello'') \<noteq> []" by (simp add: hello_trim) (simp add: lit_def)
  note f = sendMessage_accepted [OF refl c refl refl t hello_clean,
      where u = alice and p = aliceProfile and w = world0]
  show ?thesis
    using f(1,2,4) hello_clean
    by (simp add: hello_neutral msgOf_def world0_facts world1_def)
qed

section \<open>Properties of \<open>deleteMessage\<close> and of the message listener\<close>

lemma deleteMessage_guard:
  "noString chatId \<or> usr = None \<Longrightarrow> deleteMessage chatId usr m w = (Returned (), w)"
  by (auto simp: deleteMessage_def)

lemma deleteMessage_effect:
  assumes "\<not> noString chatId" and "usr \<noteq> None"
  shows "fst (deleteMessage chatId usr m w) = Returned ()"
    and "chats (snd (deleteMessage chatId usr m w)) =
           chats (updMsg (the chatId) m
                    (\<lambda>x. x\<lparr>isDeleted := Some True, deletedAt := Some (shd (clock w))\<rparr>) w)"
    and "userChats (snd (deleteMessage chatId usr m w)) = userChats w"
    and "clock (snd (deleteMessage chatId usr m w)) = stl (clock w)"
  using assms
  by (auto simp: deleteMessage_def store_defs Let_def nodeOf_def msgOf_def fun_eq_iff)

lemma deleteMessage_flag:
  assumes "\<not> noString chatId" and "usr \<noteq> None"
  shows "messages (nodeOf (snd (deleteMessage chatId usr m w)) (the chatId)) m =
           Some ((msgOf (nodeOf w (the chatId)) m)
                   \<lparr>isDeleted := Some True, deletedAt := Some (shd (clock w))\<rparr>)"
  using deleteMessage_effect(2) [OF assms, of m w]
  by (simp add: nodeOf_def updMsg_def updChat_def)

text \<open>
  C6. The second of two calls of \<open>deleteMessage\<close> on the same message returns normally, and
  what it leaves is what the first call left with the deletion time replaced by the clock
  reading of the second call: the flag is \<open>true\<close> after either call, and every other chat,
  message and field is the same.
\<close>

theorem deleteMessage_twice:
  assumes "once = snd (deleteMessage chatId usr m w)"
    and "twice = snd (deleteMessage chatId usr m once)"
  shows "fst (deleteMessage chatId usr m once) = Returned ()
         \<and> userChats twice = userChats once
         \<and> (if noString chatId \<or> usr = None then twice = once
             else chats twice =
                    chats (updMsg (the chatId) m (\<lambda>x. x\<lparr>deletedAt := Some (shd (clock once))\<rparr>) once)
                  \<and> isDeleted (msgOf (nodeOf once (the chatId)) m) = Some True
                  \<and> isDeleted (msgOf (nodeOf twice (the chatId)) m) = Some True
                  \<and> deletedAt (msgOf (nodeOf twice (the chatId)) m) = Some (shd (clock once)))"
proof (cases "noString chatId \<or> usr = None")
  case True
  then show ?thesis
    using assms by (simp add: deleteMessage_guard)
next
  case False
  then have g: "\<not> noString chatId" "usr \<noteq> None" by simp_all
  have m1: "messages (nodeOf once (the chatId)) m =
      Some ((msgOf (nodeOf w (the chatId)) m)\<lparr>isDeleted := Some True, deletedAt := Some (shd (clock w))\<rparr>)"
    using deleteMessage_flag [OF g] assms(1) by simp
  have m2: "messages (nodeOf twice (the chatId)) m =
      Some ((msgOf (nodeOf once (the chatId)) m)\<lparr>isDeleted := Some True, deletedAt := Some (shd (clock once))\<rparr>)"
    using deleteMessage_flag [OF g] assms(2) by simp
  have flag1: "isDeleted (msgOf (nodeOf once (the chatId)) m) = Some True"
    using m1 by (simp add: msgOf_def)
  have c2: "chats twice =
      chats (updMsg (the chatId) m (\<lambda>x. x\<lparr>isDeleted := Some True, deletedAt := Some (shd (clock once))\<rparr>) once)"
    using deleteMessage_effect(2) [OF g] assms(2) by simp
  have same: "(msgOf (nodeOf once (the chatId)) m)\<lparr>isDeleted := Some True, deletedAt := Some (shd (clock once))\<rparr>
      = (msgOf (nodeOf once (the chatId)) m)\<lparr>deletedAt := Some (shd (clock once))\<rparr>"
    using flag1 by simp
  have c2': "chats twice =
      chats (updMsg (the chatId) m (\<lambda>x. x\<lparr>deletedAt := Some (shd (clock once))\<rparr>) once)"
    using c2 same by (simp add: updMsg_def updChat_def)
  have flag2: "isDeleted (msgOf (nodeOf twice (the chatId)) m) = Some True"
    and at2: "deletedAt (msgOf (nodeOf twice (the chatId)) m) = Some (shd (clock once))"
    using m2 by (simp_all add: msgOf_def)
  have r2: "fst (deleteMessage chatId usr m once) = Returned ()"
    using deleteMessage_effect(1) [OF g] .
  have u2: "userChats twice = userChats once"
    using deleteMessage_effect(3) [OF g] assms(2) by simp
  have cond: "(noString chatId \<or> usr = None) = False"
    using False by simp
  show ?thesis
    unfolding cond if_False using r2 u2 c2' flag1 flag2 at2 by blast
qed


theorem deleteMessage_twice_witness:
  "fst (deleteMessage (Some (lit ''c1'')) (Some alice) (lit ''k0'')
          (snd (deleteMessage (Some (lit ''c1'')) (Some alice) (lit ''k0'') worldH)))
     = Returned ()
   \<and> isDeleted (msgOf (nodeOf (snd (deleteMessage (Some (lit ''c1'')) (Some alice) (lit ''k0'')
          (snd (deleteMessage (Some (lit ''c1'')) (Some alice) (lit ''k0'') worldH))))
        (lit ''c1'')) (lit ''k0'')) = Some True
   \<and> deletedAt (msgOf (nodeOf (snd (deleteMessage (Some (lit ''c1'')) (Some alice) (lit ''k0'')
          (snd (deleteMessage (Some (lit ''c1'')) (Some alice) (lit ''k0'') worldH))))
        (lit ''c1'')) (lit ''k0'')) = Some 1001"
proof -
  have c: "\<not> (noString (Some (lit ''c1'')) \<or> Some alice = None)"
    by (simp add: noString_def lit_def)
  have clk: "shd (clock (snd (deleteMessage (Some (lit ''c1'')) (Some alice) (lit ''k0'') worldH))) = 1001"
    using c deleteMessage_effect(4) [of "Some (lit ''c1'')" "Some alice" "lit ''k0''" worldH]
    by (simp add: worldH_def world0_def)
  show ?thesis
    using c clk deleteMessage_twice [OF refl refl, of "Some (lit ''c1'')" "Some alice" "lit ''k0''" worldH]
    by simp
qed

text \<open>
  C8. The list the message listener publishes holds no message whose soft-delete flag is
  set; every message of the snapshot whose flag is not set is in it; and once
  \<open>deleteMessage\<close> has run on a message, no snapshot of the store publishes it.
\<close>

theorem onMessages_hides_deleted:
  "(\<forall>x\<in>set (onMessages data). isDeleted x \<noteq> Some True)
   \<and> (\<forall>k msg. (k, msg) \<in> set entries \<and> isDeleted msg \<noteq> Some True
         \<longrightarrow> messageNode.extend msg (message.fields k) \<in> set (onMessages (Some entries)))
   \<and> (\<not> noString chatId \<and> usr \<noteq> None
       \<and> snapshotOf (snd (deleteMessage chatId usr m w)) (the chatId) entries'
         \<longrightarrow> (\<forall>x\<in>set (onMessages (Some entries')). message_id x \<noteq> m))"
proof -
  have a: "\<forall>x\<in>set (onMessages data). isDeleted x \<noteq> Some True"
    by (auto simp: onMessages_def softDeleted_def split: option.splits)
  have b: "messageNode.extend msg (message.fields k) \<in> set (onMessages (Some entries))"
    if "(k, msg) \<in> set entries" and "isDeleted msg \<noteq> Some True" for k msg
    using that by (force simp: onMessages_def softDeleted_def messageNode.defs message.defs)
  have c: "message_id x \<noteq> m"
    if g: "\<not> noString chatId" "usr \<noteq> None"
      and snap: "snapshotOf (snd (deleteMessage chatId usr m w)) (the chatId) entries'"
      and x: "x \<in> set (onMessages (Some entries'))" for x
  proof
    assume xm: "message_id x = m"
    from x obtain k msg where km: "(k, msg) \<in> set entries'"
      and xe: "x = messageNode.extend msg (message.fields k)" and nd: "\<not> softDeleted x"
      by (auto simp: onMessages_def)
    from xe xm have "k = m" by (simp add: messageNode.defs message.defs)
    with km snap have "messages (nodeOf (snd (deleteMessage chatId usr m w)) (the chatId)) m = Some msg"
      by (auto simp: snapshotOf_def list_all_iff)
    with deleteMessage_flag [OF g, of m w] have "isDeleted msg = Some True"
      by auto
    with xe nd show False by (simp add: softDeleted_def messageNode.defs message.defs)
  qed
  show ?thesis using a b c by blast
qed

theorem onMessages_hides_deleted_witness:
  "messageNode.extend happyMessage (message.fields (lit ''k0''))
     \<in> set (onMessages (Some [(lit ''k0'', happyMessage)]))
   \<and> snapshotOf (snd (deleteMessage (Some (lit ''c1'')) (Some alice) (lit ''k0'') worldH)) (lit ''c1'')
       [(lit ''k0'', happyMessage\<lparr>isDeleted := Some True, deletedAt := Some 1000\<rparr>)]
   \<and> lit ''k0'' \<notin> message_id ` set (onMessages
          (Some [(lit ''k0'', happyMessage\<lparr>isDeleted := Some True, deletedAt := Some 1000\<rparr>)]))"
proof -
  have g: "\<not> noString (Some (lit ''c1''))" "Some alice \<noteq> None"
    by (simp_all add: noString_def lit_def)
  have live: "isDeleted happyMessage \<noteq> Some True"
    by (simp add: happyMessage_def)
  have snap: "snapshotOf (snd (deleteMessage (Some (lit ''c1'')) (Some alice) (lit ''k0'') worldH))
      (lit ''c1'') [(lit ''k0'', happyMessage\<lparr>isDeleted := Some True, deletedAt := Some 1000\<rparr>)]"
    using deleteMessage_flag [OF g, of "lit ''k0''" worldH]
    by (simp add: snapshotOf_def worldH_def world0_def nodeOf_def msgOf_def)
  show ?thesis
    using g live snap
      onMessages_hides_deleted [of "Some [(lit ''k0'', happyMessage)]"
        "[(lit ''k0'', happyMessage)]" "Some (lit ''c1'')" "Some alice" "lit ''k0''" worldH
        "[(lit ''k0'', happyMessage\<lparr>isDeleted := Some True, deletedAt := Some 1000\<rparr>)]"]
    by auto
qed

section \<open>Properties of \<open>useChats\<close>\<close>

lemma mset_insertBy: "mset (insertBy cmp x xs) = add_mset x (mset xs)"
  by (induction xs) auto

lemma mset_sortBy: "mset (sortBy cmp xs) = mset xs"
  by (induction xs) (auto simp: sortBy_def mset_insertBy)

lemma set_insertBy: "set (insertBy cmp x xs) = insert x (set xs)"
  by (induction xs) auto

lemma sorted_insertBy:
  "sorted_wrt newerFirst xs \<Longrightarrow> sorted_wrt newerFirst (insertBy compareChats x xs)"
proof (induction xs)
  case Nil
  then show ?case by simp
next
  case (Cons y ys)
  show ?case
  proof (cases "compareChats x y \<le> 0")
    case True
    then have "newerFirst x y" by (simp add: compareChats_def newerFirst_def)
    moreover have "\<forall>z\<in>set ys. newerFirst y z" using Cons.prems by simp
    ultimately have "\<forall>z\<in>set (y # ys). newerFirst x z"
      by (auto simp: newerFirst_def)
    then show ?thesis using True Cons.prems by simp
  next
    case False
    then have "newerFirst y x" by (simp add: compareChats_def newerFirst_def)
    then show ?thesis
      using False Cons by (auto simp: set_insertBy)
  qed
qed

lemma sorted_sortBy: "sorted_wrt newerFirst (sortBy compareChats xs)"
proof (induction xs)
  case Nil
  then show ?case by (simp add: sortBy_def)
next
  case (Cons x xs)
  then show ?case using sorted_insertBy [of "sortBy compareChats xs" x] by (simp add: sortBy_def)
qed

lemma onUserChats_sorted_aux: "sorted_wrt newerFirst (onUserChats w data)"
  by (cases data) (simp_all add: onUserChats_def sorted_sortBy)

text \<open>
  C3. Every list the chat listener publishes is in non-increasing order of
  \<open>lastMessageTime\<close>, a missing time counting as 0, and it holds the resolved chats, each as
  often as resolved. So after a chat with no \<open>lastMessageTime\<close> there is no chat with a
  positive one.
\<close>

theorem onUserChats_sorted:
  "sorted_wrt (\<lambda>a b. orZero (lastMessageTime b) \<le> orZero (lastMessageTime a)) (onUserChats w data)
   \<and> mset (onUserChats w data) =
       mset (case data of Some chatIds \<Rightarrow> List.map_filter (resolveChat w) chatIds | None \<Rightarrow> [])
   \<and> (\<forall>i j. i < j \<and> j < length (onUserChats w data)
          \<and> lastMessageTime (onUserChats w data ! i) = None
        \<longrightarrow> orZero (lastMessageTime (onUserChats w data ! j)) \<le> 0)"
proof -
  have s: "sorted_wrt (\<lambda>a b. orZero (lastMessageTime b) \<le> orZero (lastMessageTime a)) (onUserChats w data)"
    using onUserChats_sorted_aux [of w data] by (simp add: newerFirst_def [abs_def])
  have m: "mset (onUserChats w data) =
      mset (case data of Some chatIds \<Rightarrow> List.map_filter (resolveChat w) chatIds | None \<Rightarrow> [])"
    by (cases data) (simp_all add: onUserChats_def mset_sortBy)
  have l: "orZero (lastMessageTime (onUserChats w data ! j)) \<le> 0"
    if "i < j" "j < length (onUserChats w data)" "lastMessageTime (onUserChats w data ! i) = None"
    for i j
  proof -
    have "orZero (lastMessageTime (onUserChats w data ! j))
        \<le> orZero (lastMessageTime (onUserChats w data ! i))"
      using s that(1,2) by (simp add: sorted_wrt_iff_nth_less)
    then show ?thesis using that(3) by (simp add: orZero_def)
  qed
  show ?thesis using s m l by blast
qed

lemma cachedC_times: "map lastMessageTime cachedC = [Some 9, Some 5, None]"
  by (simp add: cachedC_def onUserChats_def List.map_filter_def resolveChat_def worldC_def
      sortBy_def compareChats_def orZero_def chatAt_def emptyChat_def lit_def
      chatNode.defs chat.defs)

theorem onUserChats_sorted_witness:
  "map lastMessageTime (onUserChats worldC (Some [lit ''c1'', lit ''c2'', lit ''c3'']))
     = [Some 9, Some 5, None]
   \<and> sorted_wrt (\<lambda>a b. orZero (lastMessageTime b) \<le> orZero (lastMessageTime a))
       (onUserChats worldC (Some [lit ''c1'', lit ''c2'', lit ''c3'']))"
proof -
  have "sorted_wrt (\<lambda>a b. orZero (lastMessageTime b) \<le> orZero (lastMessageTime a))
       (onUserChats worldC (Some [lit ''c1'', lit ''c2'', lit ''c3'']))"
    using onUserChats_sorted [of worldC "Some [lit ''c1'', lit ''c2'', lit ''c3'']"] by blast
  then show ?thesis
    using cachedC_times by (simp add: cachedC_def)
qed

section \<open>Properties of \<open>createChat\<close>\<close>

lemma findChat_find:
  "list_all hasParticipants cached \<Longrightarrow>
     findChat (isExistingChat participantId me) cached
       = Returned (find (directBetween participantId me) cached)"
  by (induction cached)
    (auto simp: isExistingChat_def directBetween_def hasParticipants_def split: option.splits)

lemma createChat_existing:
  assumes "usr = Some u"
    and "findChat (isExistingChat participantId (uid u)) cached = Returned (Some existing)"
  shows "createChat usr cached participantId participantName w
           = (Returned (Some (chat_id existing)), w)"
  using assms by (simp add: createChat_def)

lemma createChat_new:
  assumes "usr = Some u"
    and "findChat (isExistingChat participantId (uid u)) cached = Returned None"
    and "w' = snd (createChat usr cached participantId participantName w)"
    and "k = shd (pushKeys w)"
  shows "fst (createChat usr cached participantId participantName w) = Returned (Some k)"
    and "chats w' = (chats w)(k \<mapsto> newDirectChat u participantId participantName (shd (clock w)))"
    and "userChats w' (uid u) k = Some True"
    and "userChats w' participantId k = Some True"
    and "writes w' = writes w @ [SetCall (ChatRef k), SetCall (UserChatRef (uid u) k),
                                 SetCall (UserChatRef participantId k)]"
  using assms
  by (auto simp: createChat_def store_defs Let_def writes_def isSetCall_def)

text \<open>
  C7. For a signed-in caller and a cache whose chats have their participants: when the
  cache holds a non-group chat with both the caller and the requested user among its
  participants, \<open>createChat\<close> returns the id of such a chat, the first in the cache, and
  leaves the world as it was; otherwise it writes a new chat record under the pushed key
  and an index entry for each of the two users, and returns the key.
\<close>

theorem createChat_reuses_or_creates:
  assumes "usr = Some u" and "list_all hasParticipants cached"
    and "w' = snd (createChat usr cached participantId participantName w)"
    and "k = shd (pushKeys w)"
  shows "((\<exists>c\<in>set cached. directBetween participantId (uid u) c) \<longrightarrow>
            (\<exists>existing\<in>set cached. directBetween participantId (uid u) existing
               \<and> find (directBetween participantId (uid u)) cached = Some existing
               \<and> createChat usr cached participantId participantName w
                   = (Returned (Some (chat_id existing)), w)))
         \<and> (\<not> (\<exists>c\<in>set cached. directBetween participantId (uid u) c) \<longrightarrow>
              fst (createChat usr cached participantId participantName w) = Returned (Some k)
              \<and> chats w' = (chats w)(k \<mapsto> newDirectChat u participantId participantName (shd (clock w)))
              \<and> userChats w' (uid u) k = Some True
              \<and> userChats w' participantId k = Some True
              \<and> writes w' = writes w @ [SetCall (ChatRef k), SetCall (UserChatRef (uid u) k),
                                           SetCall (UserChatRef participantId k)])"
proof (rule conjI; rule impI)
  assume "\<exists>c\<in>set cached. directBetween participantId (uid u) c"
  then obtain existing where f: "find (directBetween participantId (uid u)) cached = Some existing"
    by (cases "find (directBetween participantId (uid u)) cached") (auto simp: find_None_iff)
  then have e: "existing \<in> set cached" "directBetween participantId (uid u) existing"
    by (auto simp: find_Some_iff)
  have "findChat (isExistingChat participantId (uid u)) cached = Returned (Some existing)"
    using findChat_find [OF assms(2)] f by simp
  then have "createChat usr cached participantId participantName w
      = (Returned (Some (chat_id existing)), w)"
    using createChat_existing [OF assms(1)] by simp
  then show "\<exists>existing\<in>set cached. directBetween participantId (uid u) existing
      \<and> find (directBetween participantId (uid u)) cached = Some existing
      \<and> createChat usr cached participantId participantName w
          = (Returned (Some (chat_id existing)), w)"
    using e f by blast
next
  assume "\<not> (\<exists>c\<in>set cached. directBetween participantId (uid u) c)"
  then have "find (directBetween participantId (uid u)) cached = None"
    by (simp add: find_None_iff)
  then have n: "findChat (isExistingChat participantId (uid u)) cached = Returned None"
    using findChat_find [OF assms(2)] by simp
  note f = createChat_new [OF assms(1) n assms(3) assms(4)]
  show "fst (createChat usr cached participantId participantName w) = Returned (Some k)
      \<and> chats w' = (chats w)(k \<mapsto> newDirectChat u participantId participantName (shd (clock w)))
      \<and> userChats w' (uid u) k = Some True
      \<and> userChats w' participantId k = Some True
      \<and> writes w' = writes w @ [SetCall (ChatRef k), SetCall (UserChatRef (uid u) k),
                                   SetCall (UserChatRef participantId k)]"
    using f by blast
qed

lemma cachedC_value:
  "cachedC = [chatNode.extend (chatAt (Some 9)) (chat.fields (lit ''c3'')),
              chatNode.extend (chatAt (Some 5)) (chat.fields (lit ''c1'')),
              chatNode.extend (chatAt None) (chat.fields (lit ''c2''))]"
  by (simp add: cachedC_def onUserChats_def List.map_filter_def resolveChat_def worldC_def
      sortBy_def compareChats_def orZero_def chatAt_def emptyChat_def lit_def
      chatNode.defs chat.defs)

lemma cachedC_direct:
  "list_all hasParticipants cachedC"
  "find (directBetween (lit ''B'') (lit ''A'')) cachedC
     = Some (chatNode.extend (chatAt (Some 9)) (chat.fields (lit ''c3'')))"
  by (simp_all add: cachedC_value chatAt_def emptyChat_def lit_def
      chatNode.defs chat.defs hasParticipants_def directBetween_def)

theorem createChat_reuses_or_creates_witness:
  "list_all hasParticipants cachedC
   \<and> find (directBetween (lit ''B'') (uid alice)) cachedC
       = Some (chatNode.extend (chatAt (Some 9)) (chat.fields (lit ''c3'')))
   \<and> createChat (Some alice) cachedC (lit ''B'') (lit ''Bob'') worldC
       = (Returned (Some (lit ''c3'')), worldC)
   \<and> fst (createChat (Some alice) [] (lit ''B'') (lit ''Bob'') world0) = Returned (Some (lit ''k1''))
   \<and> userChats (snd (createChat (Some alice) [] (lit ''B'') (lit ''Bob'') world0)) (lit ''B'') (lit ''k1'')
       = Some True"
proof -
  have u: "uid alice = lit ''A''"
    by (simp add: alice_def)
  have first: "find (directBetween (lit ''B'') (uid alice)) cachedC
      = Some (chatNode.extend (chatAt (Some 9)) (chat.fields (lit ''c3'')))"
    using cachedC_direct(2) u by simp
  then have ex: "\<exists>c\<in>set cachedC. directBetween (lit ''B'') (uid alice) c"
    by (metis find_None_iff option.distinct(1))
  have id3: "chat_id (chatNode.extend (chatAt (Some 9)) (chat.fields (lit ''c3''))) = lit ''c3''"
    by (simp add: chatNode.defs chat.defs)
  have k: "shd (pushKeys world0) = lit ''k1''"
    by (simp add: world0_def)
  note a = createChat_reuses_or_creates [OF refl cachedC_direct(1) refl refl,
      where u = alice and participantId = "lit ''B''" and participantName = "lit ''Bob''"
        and w = worldC]
  have empty: "list_all hasParticipants []"
    by simp
  note b = createChat_reuses_or_creates [OF refl empty refl refl,
      where u = alice and participantId = "lit ''B''" and participantName = "lit ''Bob''"
        and w = world0]
  from a ex obtain existing where
    "find (directBetween (lit ''B'') (uid alice)) cachedC = Some existing"
    "createChat (Some alice) cachedC (lit ''B'') (lit ''Bob'') worldC
       = (Returned (Some (chat_id existing)), worldC)"
    by blast
  then have reuse: "createChat (Some alice) cachedC (lit ''B'') (lit ''Bob'') worldC
       = (Returned (Some (lit ''c3'')), worldC)"
    using first id3 by simp
  have none: "\<not> (\<exists>c\<in>set []. directBetween (lit ''B'') (uid alice) c)"
    by simp
  have new: "fst (createChat (Some alice) [] (lit ''B'') (lit ''Bob'') world0) = Returned (Some (lit ''k1''))
    \<and> userChats (snd (createChat (Some alice) [] (lit ''B'') (lit ''Bob'') world0)) (lit ''B'') (lit ''k1'')
       = Some True"
    using b none k by simp
  show ?thesis
    using cachedC_direct(1) first reuse new by blast
qed

section \<open>Properties of the wellbeing provider\<close>

lemma step_toasts:
  assumes "limitDeps s = Some (isLimitReached s, True, t)"
  shows "fst (step True t ev s) =
           (if \<not> isLimitReached s \<and> isLimitReached (applyEvent ev s) then [LimitToast] else [])"
    and "limitDeps (snd (step True t ev s)) = Some (isLimitReached (snd (step True t ev s)), True, t)"
    and "todayUsage (snd (step True t ev s)) = todayUsage (applyEvent ev s)"
    and "dailyLimit (snd (step True t ev s)) = dailyLimit (applyEvent ev s)"
proof -
  have d: "limitDeps (applyEvent ev s) = limitDeps s"
    by (cases ev) simp_all
  show "fst (step True t ev s) =
           (if \<not> isLimitReached s \<and> isLimitReached (applyEvent ev s) then [LimitToast] else [])"
    using assms d by (auto simp: step_def limitEffect_def Let_def)
  show "limitDeps (snd (step True t ev s)) = Some (isLimitReached (snd (step True t ev s)), True, t)"
    using assms d by (auto simp: step_def limitEffect_def Let_def isLimitReached_def)
  show "todayUsage (snd (step True t ev s)) = todayUsage (applyEvent ev s)"
    by (simp add: step_def limitEffect_def Let_def)
  show "dailyLimit (snd (step True t ev s)) = dailyLimit (applyEvent ev s)"
    by (simp add: step_def limitEffect_def Let_def)
qed

lemma ticks_silent:
  assumes "limitDeps s = Some (isLimitReached s, True, t)" and "isLimitReached s"
  shows "fst (run True t (replicate n Tick) s) = []"
  using assms
proof (induction n arbitrary: s)
  case 0
  then show ?case by simp
next
  case (Suc n)
  let ?s1 = "snd (step True t Tick s)"
  have r1: "isLimitReached ?s1"
    using Suc.prems(2) step_toasts(3,4) [OF Suc.prems(1), of Tick]
    by (simp add: isLimitReached_def)
  have d1: "limitDeps ?s1 = Some (isLimitReached ?s1, True, t)"
    using step_toasts(2) [OF Suc.prems(1)] .
  have t1: "fst (step True t Tick s) = []"
    using step_toasts(1) [OF Suc.prems(1), of Tick] Suc.prems(2) by simp
  have "fst (run True t (replicate n Tick) ?s1) = []"
    using Suc.IH [OF d1 r1] .
  then show ?case
    using t1 by (simp add: split_beta)
qed

text \<open>
  C4. With the provider configured and rendered (the daily-limit effect has run for the
  current state and the toast function keeps its identity): a change of state fires the
  limit toast exactly when usage was below the limit before it and is at or above the
  limit after it, and then once; so a tick from below the limit to the limit fires one
  toast, any number of ticks from a state at or above the limit fire none, and a toast is
  only ever fired from a state whose usage is below the limit.
\<close>

theorem limit_toast_on_crossing:
  assumes "limitDeps s = Some (isLimitReached s, True, t)"
  shows "fst (step True t ev s) =
           (if todayUsage s < dailyLimit s \<and> isLimitReached (applyEvent ev s) then [LimitToast] else [])
         \<and> limitDeps (snd (step True t ev s)) = Some (isLimitReached (snd (step True t ev s)), True, t)
         \<and> (todayUsage s + 1 = dailyLimit s \<longrightarrow>
              fst (step True t Tick s) = [LimitToast]
              \<and> fst (run True t (replicate n Tick) (snd (step True t Tick s))) = [])
         \<and> (dailyLimit s \<le> todayUsage s \<longrightarrow> fst (run True t (replicate n Tick) s) = [])
         \<and> (LimitToast \<in> set (fst (step True t ev s)) \<longrightarrow> todayUsage s < dailyLimit s)"
proof -
  have a: "fst (step True t ev s) =
      (if todayUsage s < dailyLimit s \<and> isLimitReached (applyEvent ev s) then [LimitToast] else [])"
    using step_toasts(1) [OF assms, of ev] by (simp add: isLimitReached_def not_le)
  have b: "limitDeps (snd (step True t ev s)) = Some (isLimitReached (snd (step True t ev s)), True, t)"
    using step_toasts(2) [OF assms] .
  have c: "fst (step True t Tick s) = [LimitToast]
      \<and> fst (run True t (replicate n Tick) (snd (step True t Tick s))) = []"
    if x: "todayUsage s + 1 = dailyLimit s"
  proof -
    let ?s1 = "snd (step True t Tick s)"
    have "fst (step True t Tick s) = [LimitToast]"
      using step_toasts(1) [OF assms, of Tick] x by (simp add: isLimitReached_def)
    moreover have "isLimitReached ?s1"
      using x step_toasts(3,4) [OF assms, of Tick] by (simp add: isLimitReached_def)
    then have "fst (run True t (replicate n Tick) ?s1) = []"
      using ticks_silent [OF step_toasts(2) [OF assms]] by simp
    ultimately show ?thesis by simp
  qed
  have d: "fst (run True t (replicate n Tick) s) = []" if "dailyLimit s \<le> todayUsage s"
    using ticks_silent [OF assms] that by (simp add: isLimitReached_def)
  have e: "todayUsage s < dailyLimit s" if "LimitToast \<in> set (fst (step True t ev s))"
    using that a by (simp split: if_splits)
  show ?thesis using a b c d e by blast
qed

lemma loaded_facts:
  "todayUsage loaded = 119" "dailyLimit loaded = 120"
  "limitDeps loaded = Some (isLimitReached loaded, True, 0)"
  "fst (step True 0 (Profile aliceProfile) mounted) = []"
  by (simp_all add: loaded_def mounted_def step_def limitEffect_def Let_def isLimitReached_def
      initialWellbeing_def aliceProfile_def orDefault_def)

theorem limit_toast_on_crossing_witness:
  "limitDeps loaded = Some (isLimitReached loaded, True, 0)
   \<and> todayUsage loaded = 119 \<and> dailyLimit loaded = 120
   \<and> fst (step True 0 Tick loaded) = [LimitToast]
   \<and> todayUsage (snd (step True 0 Tick loaded)) = 120
   \<and> fst (step True 0 Tick (snd (step True 0 Tick loaded))) = []
   \<and> fst (run True 0 [Tick, Tick, Tick] loaded) = [LimitToast]"
proof -
  have u: "todayUsage loaded + 1 = dailyLimit loaded"
    by (simp add: loaded_facts)
  have r1: "replicate 1 Tick = [Tick]" and r2: "replicate 2 Tick = [Tick, Tick]"
    by (simp_all add: numeral_2_eq_2)
  from limit_toast_on_crossing [OF loaded_facts(3), of Tick 1] u
  have "fst (step True 0 Tick loaded) = [LimitToast]
      \<and> fst (run True 0 (replicate 1 Tick) (snd (step True 0 Tick loaded))) = []"
    by blast
  then have first: "fst (step True 0 Tick loaded) = [LimitToast]"
    and second: "fst (step True 0 Tick (snd (step True 0 Tick loaded))) = []"
    unfolding r1 by (simp_all add: split_beta)
  from limit_toast_on_crossing [OF loaded_facts(3), of Tick 2] u
  have "fst (run True 0 (replicate 2 Tick) (snd (step True 0 Tick loaded))) = []"
    by blast
  then have three: "fst (run True 0 [Tick, Tick, Tick] loaded) = [LimitToast]"
    unfolding r2 using first by (simp add: split_beta)
  have u1: "todayUsage (snd (step True 0 Tick loaded)) = 120"
    by (simp add: step_def limitEffect_def Let_def loaded_facts)
  show ?thesis
    using loaded_facts(1,2,3) first u1 second three by blast
qed

lemma breakCheck_int:
  assumes "sessionStartTime x = Some t0" and "t0 \<noteq> 0"
  shows "breakCheck True c x =
      (if minutes 30 \<le> shd c - t0 \<and> minutes 30 \<le> shd (stl c) - lastBreakReminder x
       then ([BreakToast], x\<lparr>showBreakReminder := True, lastBreakReminder := shd (stl (stl c))\<rparr>)
       else ([], x))"
proof -
  have q: "(30 \<le> real_of_int d / 60000) = (minutes 30 \<le> d)" for d :: int
    by (simp add: minutes_def pos_le_divide_eq)
  show ?thesis
    unfolding breakCheck_def Let_def q using assms by simp
qed

lemma checksAt_append:
  "checksAt cfg (xs @ ys) s =
     (fst (checksAt cfg xs s) @ fst (checksAt cfg ys (snd (checksAt cfg xs s))),
      snd (checksAt cfg ys (snd (checksAt cfg xs s))))"
  by (induction xs arbitrary: s) (simp_all add: split_beta)

lemma checksAt_silent:
  assumes "sessionStartTime s = Some t0" and "t0 \<noteq> 0"
    and "\<forall>t\<in>set ts. \<not> (minutes 30 \<le> t - t0 \<and> minutes 30 \<le> t - lastBreakReminder s)"
  shows "checksAt True ts s = (replicate (length ts) [], s)"
  using assms(3)
proof (induction ts)
  case Nil
  then show ?case by simp
next
  case (Cons t ts)
  have "breakCheck True (sconst t) s = ([], s)"
    using breakCheck_int [OF assms(1,2), of "sconst t"] Cons.prems by simp
  then show ?case using Cons by simp
qed

lemma checksAt_fire:
  assumes "sessionStartTime s = Some t0" and "t0 \<noteq> 0"
    and "minutes 30 \<le> t - t0" and "minutes 30 \<le> t - lastBreakReminder s"
  shows "checksAt True [t] s =
           ([[BreakToast]], s\<lparr>showBreakReminder := True, lastBreakReminder := t\<rparr>)"
  using breakCheck_int [OF assms(1,2), of "sconst t"] assms(3,4) by simp

lemma minutesFrom_split:
  "a \<le> b \<Longrightarrow> b \<le> c \<Longrightarrow> minutesFrom t0 a c = minutesFrom t0 a b @ minutesFrom t0 b c"
  using upt_add_eq_append [of a b "c - b"] by (simp add: minutesFrom_def)

lemma minutesFrom_one: "minutesFrom t0 a (Suc a) = [t0 + minutes (int a)]"
  by (simp add: minutesFrom_def)

lemma minutesFrom_length: "length (minutesFrom t0 a b) = b - a"
  by (simp add: minutesFrom_def)

lemma minutesFrom_set: "t \<in> set (minutesFrom t0 a b) \<longleftrightarrow> (\<exists>k. a \<le> k \<and> k < b \<and> t = t0 + minutes (int k))"
  by (auto simp: minutesFrom_def)

lemma everyMinute_61:
  "everyMinute t0 61 = minutesFrom t0 1 30 @ [t0 + minutes 30] @ minutesFrom t0 31 60
      @ [t0 + minutes 60] @ [t0 + minutes 61]"
proof -
  have "minutesFrom t0 1 62 = minutesFrom t0 1 30 @ minutesFrom t0 30 62"
    by (rule minutesFrom_split) simp_all
  also have "minutesFrom t0 30 62 = minutesFrom t0 30 31 @ minutesFrom t0 31 62"
    by (rule minutesFrom_split) simp_all
  also have "minutesFrom t0 31 62 = minutesFrom t0 31 60 @ minutesFrom t0 60 62"
    by (rule minutesFrom_split) simp_all
  also have "minutesFrom t0 60 62 = minutesFrom t0 60 61 @ minutesFrom t0 61 62"
    by (rule minutesFrom_split) simp_all
  finally have "minutesFrom t0 1 62 = minutesFrom t0 1 30 @ minutesFrom t0 30 31
      @ minutesFrom t0 31 60 @ minutesFrom t0 60 61 @ minutesFrom t0 61 62" .
  moreover have "minutesFrom t0 30 31 = [t0 + minutes 30]"
    "minutesFrom t0 60 61 = [t0 + minutes 60]" "minutesFrom t0 61 62 = [t0 + minutes 61]"
    using minutesFrom_one [of t0 30] minutesFrom_one [of t0 60] minutesFrom_one [of t0 61]
    by simp_all
  ultimately show ?thesis by (simp add: everyMinute_def)
qed

lemma periodic_checks:
  assumes "sessionStartTime s = Some t0" and "0 < t0" and "lastBreakReminder s = 0"
  shows "checksAt True (everyMinute t0 61) s =
           (replicate 29 [] @ [[BreakToast]] @ replicate 29 [] @ [[BreakToast], []],
            s\<lparr>showBreakReminder := True, lastBreakReminder := t0 + minutes 60\<rparr>)"
proof -
  have nz: "t0 \<noteq> 0" using assms(2) by simp
  let ?s1 = "s\<lparr>showBreakReminder := True, lastBreakReminder := t0 + minutes 30\<rparr>"
  let ?s2 = "s\<lparr>showBreakReminder := True, lastBreakReminder := t0 + minutes 60\<rparr>"
  have st1: "sessionStartTime ?s1 = Some t0" and st2: "sessionStartTime ?s2 = Some t0"
    using assms(1) by simp_all
  have early: "\<forall>t\<in>set (minutesFrom t0 1 30).
      \<not> (minutes 30 \<le> t - t0 \<and> minutes 30 \<le> t - lastBreakReminder s)"
    by (auto simp: minutesFrom_set minutes_def)
  have a: "checksAt True (minutesFrom t0 1 30) s = (replicate 29 [], s)"
    using checksAt_silent [OF assms(1) nz early] by (simp add: minutesFrom_length)
  have b: "checksAt True [t0 + minutes 30] s = ([[BreakToast]], ?s1)"
    using checksAt_fire [OF assms(1) nz, of "t0 + minutes 30"] assms(2,3)
    by (simp add: minutes_def)
  have soon: "\<forall>t\<in>set (minutesFrom t0 31 60).
      \<not> (minutes 30 \<le> t - t0 \<and> minutes 30 \<le> t - lastBreakReminder ?s1)"
    by (auto simp: minutesFrom_set minutes_def)
  have c: "checksAt True (minutesFrom t0 31 60) ?s1 = (replicate 29 [], ?s1)"
    using checksAt_silent [OF st1 nz soon] by (simp add: minutesFrom_length)
  have d: "checksAt True [t0 + minutes 60] ?s1 = ([[BreakToast]], ?s2)"
    using checksAt_fire [OF st1 nz, of "t0 + minutes 60"] by (simp add: minutes_def)
  have e: "checksAt True [t0 + minutes 61] ?s2 = ([[]], ?s2)"
    using checksAt_silent [OF st2 nz, of "[t0 + minutes 61]"] by (simp add: minutes_def)
  have "checksAt True (everyMinute t0 61) s =
      (replicate 29 [] @ [[BreakToast]] @ replicate 29 [] @ [[BreakToast]] @ [[]], ?s2)"
    unfolding everyMinute_61 by (simp only: checksAt_append a b c d e fst_conv snd_conv)
  then show ?thesis by simp
qed


text \<open>
  C5, amended. While a session runs (a start time is set and the provider is configured),
  a check of the break timer surfaces the reminder exactly when at least 30 minutes have
  passed since the session start and at least 30 minutes since the last reminder, and
  surfacing sets the reminder flag and moves the last-reminder time to the current reading
  of the clock; otherwise the state is unchanged. So for a session started at \<open>t0\<close> with no
  reminder before and checked every minute, the checks at \<open>t0\<close> plus 30 and plus 60 minutes
  surface the reminder, once each, and no other check up to plus 61 minutes does: not the
  one at plus 45, and not the one at plus 61.
\<close>

theorem breakCheck_rule:
  assumes "sessionStartTime s = Some t0" and "t0 \<noteq> 0"
  shows "breakCheck True clk s =
           (if minutes 30 \<le> shd clk - t0 \<and> minutes 30 \<le> shd (stl clk) - lastBreakReminder s
            then ([BreakToast],
                  s\<lparr>showBreakReminder := True, lastBreakReminder := shd (stl (stl clk))\<rparr>)
            else ([], s))
         \<and> (0 < t0 \<and> lastBreakReminder s = 0 \<longrightarrow>
              fst (checksAt True (everyMinute t0 61) s)
                = replicate 29 [] @ [[BreakToast]] @ replicate 29 [] @ [[BreakToast], []]
              \<and> fst (checksAt True (everyMinute t0 61) s) ! 29 = [BreakToast]
              \<and> fst (checksAt True (everyMinute t0 61) s) ! 44 = []
              \<and> fst (checksAt True (everyMinute t0 61) s) ! 59 = [BreakToast]
              \<and> fst (checksAt True (everyMinute t0 61) s) ! 60 = [])"
proof -
  have scenario: "fst (checksAt True (everyMinute t0 61) s)
        = replicate 29 [] @ [[BreakToast]] @ replicate 29 [] @ [[BreakToast], []]
      \<and> fst (checksAt True (everyMinute t0 61) s) ! 29 = [BreakToast]
      \<and> fst (checksAt True (everyMinute t0 61) s) ! 44 = []
      \<and> fst (checksAt True (everyMinute t0 61) s) ! 59 = [BreakToast]
      \<and> fst (checksAt True (everyMinute t0 61) s) ! 60 = []"
    if "0 < t0" and "lastBreakReminder s = 0"
  proof -
    have l: "fst (checksAt True (everyMinute t0 61) s)
        = replicate 29 [] @ [[BreakToast]] @ replicate 29 [] @ [[BreakToast], []]"
      using periodic_checks [OF assms(1) that] by simp
    show ?thesis
      unfolding l by (simp add: nth_append)
  qed
  show ?thesis
    using breakCheck_int [OF assms, of clk] scenario by blast
qed

lemma session1000_facts:
  "sessionStartTime session1000 = Some 1000" "lastBreakReminder session1000 = 0"
  by (simp_all add: session1000_def initialWellbeing_def)

theorem breakCheck_rule_witness:
  "sessionStartTime session1000 = Some 1000
   \<and> (1000::int) \<noteq> 0 \<and> lastBreakReminder session1000 = 0
   \<and> fst (checksAt True (everyMinute 1000 61) session1000) ! 29 = [BreakToast]
   \<and> fst (checksAt True (everyMinute 1000 61) session1000) ! 44 = []
   \<and> fst (checksAt True (everyMinute 1000 61) session1000) ! 59 = [BreakToast]"
proof -
  have nz: "(1000::int) \<noteq> 0" and pos: "0 < (1000::int)"
    by simp_all
  from breakCheck_rule [OF session1000_facts(1) nz, of "sconst 0"] session1000_facts(2) pos
  have "fst (checksAt True (everyMinute 1000 61) session1000) ! 29 = [BreakToast]
      \<and> fst (checksAt True (everyMinute 1000 61) session1000) ! 44 = []
      \<and> fst (checksAt True (everyMinute 1000 61) session1000) ! 59 = [BreakToast]"
    by blast
  then show ?thesis
    using session1000_facts nz by blast
qed

theorem breakCheck_minute61_counterexample:
  "sessionStartTime session1000 = Some 1000
   \<and> lastBreakReminder session1000 = 0
   \<and> length (everyMinute 1000 61) = 61
   \<and> everyMinute 1000 61 ! 60 = 1000 + minutes 61
   \<and> fst (checksAt True (everyMinute 1000 61) session1000) ! 59 = [BreakToast]
   \<and> fst (checksAt True (everyMinute 1000 61) session1000) ! 60 = []"
proof -
  have pos: "0 < (1000::int)"
    by simp
  have l: "fst (checksAt True (everyMinute 1000 61) session1000)
      = replicate 29 [] @ [[BreakToast]] @ replicate 29 [] @ [[BreakToast], []]"
    using periodic_checks [OF session1000_facts(1) pos session1000_facts(2)] by simp
  have n: "length (everyMinute 1000 61) = 61" "everyMinute 1000 61 ! 60 = 1000 + minutes 61"
    by (simp_all add: everyMinute_def minutesFrom_def)
  show ?thesis
    unfolding l using session1000_facts n by (simp add: nth_append)
qed

end
